theory Spec2Isabelle
  imports Complex_Main
begin

section \<open>Centering of size factors (center\_size\_factors.hpp)\<close>

text \<open>
  The header is a set of four function templates over a floating-point type
  \<open>SizeFactor_\<close>. The embedding keeps that type a parameter \<open>'a\<close>, and takes the
  operations the source applies to its values as one record, so that every theorem
  stated for an arbitrary record holds for \<open>float\<close>, \<open>double\<close> and \<open>long double\<close>
  with their rounding, and not only for an idealised arithmetic.

  The record also carries the two things the header uses from
  \<open>sanitize_size_factors.hpp\<close>, which is not part of the sources at hand: the
  classifier \<open>sanitize_size_factors::internal::is_invalid(val, diag)\<close>, which returns a
  verdict and may write to \<open>diag\<close>, and the default-constructed \<open>Diagnostics\<close> object.
  The type of diagnostics is the second parameter \<open>'d\<close>.
\<close>

subsection \<open>Data model\<close>

datatype BlockMode = PER_BLOCK | LOWEST

record Options =
  block_mode :: BlockMode
  ignore_invalid :: bool

definition default_Options :: Options where
  "default_Options = \<lparr>block_mode = LOWEST, ignore_invalid = True\<rparr>"

record ('a, 'd) ops =
  zero_sf :: 'a                                 \<comment> \<open>\<open>static_cast<SizeFactor_>(0)\<close>\<close>
  plus_sf :: "'a \<Rightarrow> 'a \<Rightarrow> 'a"                     \<comment> \<open>\<open>a + b\<close>, \<open>a += b\<close>\<close>
  div_sf :: "'a \<Rightarrow> 'a \<Rightarrow> 'a"                      \<comment> \<open>\<open>a / b\<close>, \<open>a /= b\<close>\<close>
  less_sf :: "'a \<Rightarrow> 'a \<Rightarrow> bool"                   \<comment> \<open>\<open>a < b\<close>\<close>
  nonzero_sf :: "'a \<Rightarrow> bool"                     \<comment> \<open>\<open>if (a)\<close>: conversion to \<open>bool\<close>\<close>
  of_size_t :: "nat \<Rightarrow> 'a"                       \<comment> \<open>conversion of a \<open>size_t\<close> operand\<close>
  is_invalid :: "'a \<Rightarrow> 'd \<Rightarrow> bool \<times> 'd"           \<comment> \<open>verdict and updated diagnostics\<close>
  new_Diagnostics :: 'd                         \<comment> \<open>\<open>Diagnostics tmpdiag;\<close>\<close>

text \<open>
  Every function takes \<open>num\<close> and a pointer to an array of \<open>num\<close> size factors. The
  model takes the array as a list; \<open>num\<close> is its length. The labels of \<open>block\<close> index
  a vector, so they are natural numbers.

  What a call leaves behind: the value it returns, the array \<open>size_factors\<close> points to
  and the object \<open>diagnostics\<close> points to (\<open>None\<close> for a \<open>NULL\<close> pointer).
  \<open>compute_mean\<close> and \<open>compute_blocked_mean\<close> take the array through a pointer to
  \<open>const\<close>; their outcome carries the array they were given.
\<close>

record ('r, 'a, 'd) outcome =
  returned :: 'r
  sf_out :: "'a list"
  diag_out :: "'d option"

subsection \<open>The diagnostics sink\<close>

text \<open>
  \<open>auto& diag = (diagnostics == NULL ? tmpdiag : *diagnostics);\<close> The loop writes to
  \<open>diag\<close>; the caller sees the writes only when the pointer was not \<open>NULL\<close>.
\<close>

definition sink :: "('a, 'd) ops \<Rightarrow> 'd option \<Rightarrow> 'd" where
  "sink E diagnostics = (case diagnostics of None \<Rightarrow> new_Diagnostics E | Some d \<Rightarrow> d)"

definition written :: "'d option \<Rightarrow> 'd \<Rightarrow> 'd option" where
  "written diagnostics diag = (case diagnostics of None \<Rightarrow> None | Some _ \<Rightarrow> Some diag)"

subsection \<open>compute\_mean\<close>

text \<open>
  The filtering loop of \<open>compute_mean\<close>, on the state \<open>(mean, denom, diag)\<close>:
  \<^verbatim>\<open>
  for (size_t i = 0; i < num; ++i) {
      auto val = size_factors[i];
      if (!is_invalid(val, diag)) { mean += val; ++denom; }
  }\<close>
\<close>

fun mean_loop :: "('a, 'd) ops \<Rightarrow> 'a list \<Rightarrow> 'a \<times> nat \<times> 'd \<Rightarrow> 'a \<times> nat \<times> 'd" where
  "mean_loop E [] st = st"
| "mean_loop E (val # rest) (mean, denom, diag) =
     (case is_invalid E val diag of
        (invalid, diag') \<Rightarrow>
          if \<not> invalid then mean_loop E rest (plus_sf E mean val, Suc denom, diag')
          else mean_loop E rest (mean, denom, diag'))"

text \<open>
  \<open>std::accumulate(first, last, init)\<close> is \<open>init = init + *it\<close> from left to right,
  that is \<open>foldl\<close>. The final \<open>mean/denom\<close> divides a \<open>SizeFactor_\<close> by a \<open>size_t\<close>,
  which is converted to \<open>SizeFactor_\<close> first; \<open>return 0\<close> is converted likewise.
\<close>

definition compute_mean ::
  "('a, 'd) ops \<Rightarrow> 'a list \<Rightarrow> 'd option \<Rightarrow> Options \<Rightarrow> ('a, 'a, 'd) outcome" where
  "compute_mean E size_factors diagnostics options =
     (case (if ignore_invalid options then
              (case mean_loop E size_factors (zero_sf E, 0, sink E diagnostics) of
                 (mean, denom, diag) \<Rightarrow> (mean, denom, written diagnostics diag))
            else
              (foldl (plus_sf E) (zero_sf E) size_factors, length size_factors, diagnostics))
      of (mean, denom, diagnostics') \<Rightarrow>
        \<lparr>returned = (if denom \<noteq> 0 then div_sf E mean (of_size_t E denom) else zero_sf E),
         sf_out = size_factors,
         diag_out = diagnostics'\<rparr>)"

subsection \<open>compute\<close>

definition compute ::
  "('a, 'd) ops \<Rightarrow> 'a list \<Rightarrow> 'd option \<Rightarrow> Options \<Rightarrow> ('a, 'a, 'd) outcome" where
  "compute E size_factors diagnostics options =
     (let m = compute_mean E size_factors diagnostics options;
          mean = returned m
      in \<lparr>returned = mean,
          sf_out = (if nonzero_sf E mean then map (\<lambda>x. div_sf E x mean) (sf_out m)
                    else sf_out m),
          diag_out = diag_out m\<rparr>)"

subsection \<open>compute\_blocked\_mean\<close>

text \<open>
  Modelled from the spec: \<open>tatami_stats::total_groups(block, num)\<close> belongs to another
  library and is not among the sources. The specification gives the number of blocks as
  the largest label plus one; an empty array has no block.
\<close>

definition total_groups :: "nat list \<Rightarrow> nat" where
  "total_groups block = (if block = [] then 0 else Suc (Max (set block)))"

text \<open>
  The two accumulation loops, over the cells \<open>(size_factors[i], block[i])\<close> in index
  order, on the vectors \<open>group_mean\<close> and \<open>group_num\<close>. Every label is below
  \<open>ngroups\<close> by the definition of \<open>total_groups\<close>, so each \<open>group_mean[b]\<close> is in range.
\<close>

fun blocked_loop_valid ::
  "('a, 'd) ops \<Rightarrow> ('a \<times> nat) list \<Rightarrow> 'a list \<times> nat list \<times> 'd \<Rightarrow> 'a list \<times> nat list \<times> 'd" where
  "blocked_loop_valid E [] st = st"
| "blocked_loop_valid E ((val, b) # rest) (group_mean, group_num, diag) =
     (case is_invalid E val diag of
        (invalid, diag') \<Rightarrow>
          if \<not> invalid then
            blocked_loop_valid E rest
              (group_mean[b := plus_sf E (group_mean ! b) val],
               group_num[b := Suc (group_num ! b)], diag')
          else blocked_loop_valid E rest (group_mean, group_num, diag'))"

fun blocked_loop_all ::
  "('a, 'd) ops \<Rightarrow> ('a \<times> nat) list \<Rightarrow> 'a list \<times> nat list \<Rightarrow> 'a list \<times> nat list" where
  "blocked_loop_all E [] st = st"
| "blocked_loop_all E ((val, b) # rest) (group_mean, group_num) =
     blocked_loop_all E rest
       (group_mean[b := plus_sf E (group_mean ! b) val],
        group_num[b := Suc (group_num ! b)])"

text \<open>
  \<open>for (g < ngroups) if (group_num[g]) group_mean[g] /= group_num[g];\<close>
\<close>

definition finish_means :: "('a, 'd) ops \<Rightarrow> 'a list \<Rightarrow> nat list \<Rightarrow> 'a list" where
  "finish_means E group_mean group_num =
     map (\<lambda>(m, n). if n \<noteq> 0 then div_sf E m (of_size_t E n) else m) (zip group_mean group_num)"

text \<open>
  Both arrays have \<open>num\<close> elements by the function's contract. With a \<open>block\<close> array of
  another length the source would index past the end of one of them; the model has no
  outcome there (\<open>None\<close>).
\<close>

definition compute_blocked_mean ::
  "('a, 'd) ops \<Rightarrow> 'a list \<Rightarrow> nat list \<Rightarrow> 'd option \<Rightarrow> Options
     \<Rightarrow> ('a list, 'a, 'd) outcome option" where
  "compute_blocked_mean E size_factors block diagnostics options =
     (if length block \<noteq> length size_factors then None
      else
        let ngroups = total_groups block;
            group_mean0 = replicate ngroups (zero_sf E);
            group_num0 = replicate ngroups (0::nat);
            cells = zip size_factors block
        in (case (if ignore_invalid options then
                    (case blocked_loop_valid E cells (group_mean0, group_num0, sink E diagnostics) of
                       (group_mean, group_num, diag) \<Rightarrow>
                         (group_mean, group_num, written diagnostics diag))
                  else
                    (case blocked_loop_all E cells (group_mean0, group_num0) of
                       (group_mean, group_num) \<Rightarrow> (group_mean, group_num, diagnostics)))
            of (group_mean, group_num, diagnostics') \<Rightarrow>
              Some \<lparr>returned = finish_means E group_mean group_num,
                    sf_out = size_factors,
                    diag_out = diagnostics'\<rparr>))"

subsection \<open>compute\_blocked\<close>

text \<open>
  The search of the \<open>LOWEST\<close> branch, on the state \<open>(min, found)\<close> (the variable
  \<open>min\<close> of the source is \<open>min_mean\<close> here):
  \<^verbatim>\<open>
  for (auto m : group_mean) {
      if (m) { if (!found || m < min) { min = m; found = true; } }
  }\<close>
\<close>

fun lowest_loop :: "('a, 'd) ops \<Rightarrow> 'a list \<Rightarrow> 'a \<times> bool \<Rightarrow> 'a \<times> bool" where
  "lowest_loop E [] st = st"
| "lowest_loop E (m # rest) (min_mean, found) =
     (if nonzero_sf E m then
        (if \<not> found \<or> less_sf E m min_mean then lowest_loop E rest (m, True)
         else lowest_loop E rest (min_mean, found))
      else lowest_loop E rest (min_mean, found))"

text \<open>
  The rescaling of \<open>PER_BLOCK\<close>, cell by cell, and of \<open>LOWEST\<close>, where \<open>min > 0\<close> is
  \<open>0 < min\<close> with the literal converted to \<open>SizeFactor_\<close>.
\<close>

definition rescale_per_block :: "('a, 'd) ops \<Rightarrow> 'a list \<Rightarrow> ('a \<times> nat) list \<Rightarrow> 'a list" where
  "rescale_per_block E group_mean cells =
     map (\<lambda>(x, b). let d = group_mean ! b in if nonzero_sf E d then div_sf E x d else x) cells"

definition rescale_lowest :: "('a, 'd) ops \<Rightarrow> 'a list \<Rightarrow> 'a list \<Rightarrow> 'a list" where
  "rescale_lowest E group_mean size_factors =
     (case lowest_loop E group_mean (zero_sf E, False) of
        (min_mean, found) \<Rightarrow>
          if less_sf E (zero_sf E) min_mean then map (\<lambda>x. div_sf E x min_mean) size_factors
          else size_factors)"

definition compute_blocked ::
  "('a, 'd) ops \<Rightarrow> 'a list \<Rightarrow> nat list \<Rightarrow> 'd option \<Rightarrow> Options
     \<Rightarrow> ('a list, 'a, 'd) outcome option" where
  "compute_blocked E size_factors block diagnostics options =
     (case compute_blocked_mean E size_factors block diagnostics options of
        None \<Rightarrow> None
      | Some gm \<Rightarrow>
          let group_mean = returned gm
          in Some \<lparr>returned = group_mean,
                   sf_out = (case block_mode options of
                               PER_BLOCK \<Rightarrow> rescale_per_block E group_mean (zip (sf_out gm) block)
                             | LOWEST \<Rightarrow> rescale_lowest E group_mean (sf_out gm)),
                   diag_out = diag_out gm\<rparr>)"

subsection \<open>A concrete arithmetic\<close>

text \<open>
  The values of a floating-point type: the finite numbers, the two infinities and NaN.
  A finite value carries the real number it denotes and the operations are exact on
  finite operands, so this arithmetic agrees with IEEE 754 \<open>float\<close> and \<open>double\<close>
  wherever every operand and result is representable (the small dyadic numbers of the
  examples below are) and says nothing sharper elsewhere. The sign of zero is not
  kept. NaN and the infinities propagate as IEEE 754 prescribes; a comparison with NaN
  is false, and a value converts to \<open>true\<close> unless it compares equal to zero.
\<close>

datatype sfloat = Finite real | PosInf | NegInf | NaN

fun fp_plus :: "sfloat \<Rightarrow> sfloat \<Rightarrow> sfloat" where
  "fp_plus NaN _ = NaN"
| "fp_plus _ NaN = NaN"
| "fp_plus (Finite a) (Finite b) = Finite (a + b)"
| "fp_plus PosInf NegInf = NaN"
| "fp_plus NegInf PosInf = NaN"
| "fp_plus PosInf _ = PosInf"
| "fp_plus _ PosInf = PosInf"
| "fp_plus NegInf _ = NegInf"
| "fp_plus _ NegInf = NegInf"

fun fp_div :: "sfloat \<Rightarrow> sfloat \<Rightarrow> sfloat" where
  "fp_div NaN _ = NaN"
| "fp_div _ NaN = NaN"
| "fp_div (Finite a) (Finite b) =
     (if b \<noteq> 0 then Finite (a / b)
      else if a = 0 then NaN else if 0 < a then PosInf else NegInf)"
| "fp_div (Finite a) _ = Finite 0"
| "fp_div PosInf (Finite b) = (if 0 \<le> b then PosInf else NegInf)"
| "fp_div NegInf (Finite b) = (if 0 \<le> b then NegInf else PosInf)"
| "fp_div _ _ = NaN"

fun fp_less :: "sfloat \<Rightarrow> sfloat \<Rightarrow> bool" where
  "fp_less NaN _ = False"
| "fp_less _ NaN = False"
| "fp_less (Finite a) (Finite b) = (a < b)"
| "fp_less _ NegInf = False"
| "fp_less PosInf _ = False"
| "fp_less NegInf _ = True"
| "fp_less _ PosInf = True"

definition fp_nonzero :: "sfloat \<Rightarrow> bool" where
  "fp_nonzero x = (x \<noteq> Finite 0)"

definition fp_of_size_t :: "nat \<Rightarrow> sfloat" where
  "fp_of_size_t n = Finite (real n)"

text \<open>
  Modelled from the spec: \<open>sanitize_size_factors::Diagnostics\<close> is declared in
  \<open>sanitize_size_factors.hpp\<close>, which is not among the sources. The specification
  describes the diagnostics as flags for the kinds of invalid value met ("zero seen",
  "negative seen", "NaN seen", "infinite seen"), never reset by the classifier, and an
  invalid size factor as a non-positive, NaN or infinite value. A value is filed under
  the first kind it falls under, in the order negative, zero, NaN, infinite.
\<close>

record Diagnostics =
  has_negative :: bool
  has_zero :: bool
  has_nan :: bool
  has_infinite :: bool

definition fresh_Diagnostics :: Diagnostics where
  "fresh_Diagnostics =
     \<lparr>has_negative = False, has_zero = False, has_nan = False, has_infinite = False\<rparr>"

text \<open>
  Modelled from the spec: the classifier \<open>is_invalid(value, diagnostics)\<close>, whose
  source is missing. It returns \<open>true\<close> for a non-positive, NaN or infinite value and
  sets the flag of the kind it found; a valid value leaves the diagnostics alone.
\<close>

definition fp_is_invalid :: "sfloat \<Rightarrow> Diagnostics \<Rightarrow> bool \<times> Diagnostics" where
  "fp_is_invalid sf output =
     (if fp_less sf (Finite 0) then (True, output\<lparr>has_negative := True\<rparr>)
      else if sf = Finite 0 then (True, output\<lparr>has_zero := True\<rparr>)
      else if sf = NaN then (True, output\<lparr>has_nan := True\<rparr>)
      else if sf = PosInf \<or> sf = NegInf then (True, output\<lparr>has_infinite := True\<rparr>)
      else (False, output))"

definition fp_ops :: "(sfloat, Diagnostics) ops" where
  "fp_ops =
     \<lparr>zero_sf = Finite 0, plus_sf = fp_plus, div_sf = fp_div, less_sf = fp_less,
      nonzero_sf = fp_nonzero, of_size_t = fp_of_size_t,
      is_invalid = fp_is_invalid, new_Diagnostics = fresh_Diagnostics\<rparr>"

subsection \<open>Notions the claims are stated in\<close>

text \<open>
  The values the classifier accepts during one pass over an array, in the order of
  the array. The classifier is called on every value with the diagnostics as the
  earlier calls left them.
\<close>

fun accepted :: "('a, 'd) ops \<Rightarrow> 'a list \<Rightarrow> 'd \<Rightarrow> 'a list" where
  "accepted E [] diag = []"
| "accepted E (val # rest) diag =
     (case is_invalid E val diag of
        (invalid, diag') \<Rightarrow>
          if \<not> invalid then val # accepted E rest diag' else accepted E rest diag')"

fun accepted_cells :: "('a, 'd) ops \<Rightarrow> ('a \<times> nat) list \<Rightarrow> 'd \<Rightarrow> ('a \<times> nat) list" where
  "accepted_cells E [] diag = []"
| "accepted_cells E ((val, b) # rest) diag =
     (case is_invalid E val diag of
        (invalid, diag') \<Rightarrow>
          if \<not> invalid then (val, b) # accepted_cells E rest diag'
          else accepted_cells E rest diag')"

text \<open>
  The values that contribute to a mean: all of them when \<open>ignore_invalid\<close> is false,
  the accepted ones when it is true.
\<close>

definition contributing :: "('a, 'd) ops \<Rightarrow> 'a list \<Rightarrow> 'd option \<Rightarrow> Options \<Rightarrow> 'a list" where
  "contributing E size_factors diagnostics options =
     (if ignore_invalid options then accepted E size_factors (sink E diagnostics)
      else size_factors)"

definition contributing_cells ::
  "('a, 'd) ops \<Rightarrow> ('a \<times> nat) list \<Rightarrow> 'd option \<Rightarrow> Options \<Rightarrow> ('a \<times> nat) list" where
  "contributing_cells E cells diagnostics options =
     (if ignore_invalid options then accepted_cells E cells (sink E diagnostics) else cells)"

text \<open>The values of the cells labelled \<open>b\<close>, in the order of the array.\<close>

definition block_values :: "nat \<Rightarrow> ('a \<times> nat) list \<Rightarrow> 'a list" where
  "block_values b cells = map fst (filter (\<lambda>cell. snd cell = b) cells)"

text \<open>
  The specification's mean: the sum, accumulated from zero in the order of the values,
  divided by the count; zero when nothing contributes.
\<close>

definition sum_sf :: "('a, 'd) ops \<Rightarrow> 'a list \<Rightarrow> 'a" where
  "sum_sf E vals = foldl (plus_sf E) (zero_sf E) vals"

definition mean_of :: "('a, 'd) ops \<Rightarrow> 'a list \<Rightarrow> 'a" where
  "mean_of E vals =
     (if length vals = 0 then zero_sf E
      else div_sf E (sum_sf E vals) (of_size_t E (length vals)))"

text \<open>
  Properties of the parameters that some claims rest on. \<open>verdict_fixed\<close>: the
  classifier judges a value by the value alone, whatever the diagnostics hold.
  \<open>zero_laws\<close>: zero converts to \<open>false\<close>, adding a zero to zero gives zero, and zero
  divided by a positive count is zero. \<open>order_laws\<close>: \<open><\<close> is irreflexive and
  transitive. IEEE 754 arithmetic has all three (NaN included); \<open>fp_ops\<close> has them too.
\<close>

definition verdict_fixed :: "('a, 'd) ops \<Rightarrow> bool" where
  "verdict_fixed E = (\<forall>v d d'. fst (is_invalid E v d) = fst (is_invalid E v d'))"

definition zero_laws :: "('a, 'd) ops \<Rightarrow> bool" where
  "zero_laws E =
     (\<not> nonzero_sf E (zero_sf E)
      \<and> (\<forall>x. \<not> nonzero_sf E x \<longrightarrow> plus_sf E (zero_sf E) x = zero_sf E)
      \<and> (\<forall>n. 0 < n \<longrightarrow> div_sf E (zero_sf E) (of_size_t E n) = zero_sf E))"

definition order_laws :: "('a, 'd) ops \<Rightarrow> bool" where
  "order_laws E =
     ((\<forall>a. \<not> less_sf E a a)
      \<and> (\<forall>a b c. less_sf E a b \<and> less_sf E b c \<longrightarrow> less_sf E a c))"

section \<open>Properties\<close>

subsection \<open>The concrete arithmetic\<close>

lemma fp_ops_simps:
  "zero_sf fp_ops = Finite 0" "plus_sf fp_ops = fp_plus" "div_sf fp_ops = fp_div"
  "less_sf fp_ops = fp_less" "nonzero_sf fp_ops = fp_nonzero"
  "of_size_t fp_ops = fp_of_size_t" "is_invalid fp_ops = fp_is_invalid"
  "new_Diagnostics fp_ops = fresh_Diagnostics"
  by (simp_all add: fp_ops_def)

lemmas fp_eval = fp_ops_simps fp_nonzero_def fp_of_size_t_def fp_is_invalid_def
  fresh_Diagnostics_def sink_def written_def

lemma fp_zero_laws: "zero_laws fp_ops"
  by (simp add: zero_laws_def fp_ops_def fp_nonzero_def fp_of_size_t_def)

lemma fp_verdict_fixed: "verdict_fixed fp_ops"
  by (simp add: verdict_fixed_def fp_ops_def fp_is_invalid_def)

lemma fp_less_irrefl: "\<not> fp_less a a"
  by (cases a) simp_all

lemma fp_less_trans: "fp_less a b \<Longrightarrow> fp_less b c \<Longrightarrow> fp_less a c"
  by (cases a; cases b; cases c) simp_all

lemma fp_order_laws: "order_laws fp_ops"
  unfolding order_laws_def fp_ops_simps
  using fp_less_irrefl fp_less_trans by blast

subsection \<open>The mean in closed form\<close>

lemma mean_loop_closed:
  "mean_loop E xs (mean, denom, diag) = (mean', denom', diag') \<Longrightarrow>
     mean' = foldl (plus_sf E) mean (accepted E xs diag)
     \<and> denom' = denom + length (accepted E xs diag)"
proof (induction xs arbitrary: mean denom diag)
  case Nil
  then show ?case by simp
next
  case (Cons val rest)
  obtain invalid d1 where v: "is_invalid E val diag = (invalid, d1)"
    by (cases "is_invalid E val diag")
  show ?case
  proof (cases invalid)
    case True
    with Cons.prems v have "mean_loop E rest (mean, denom, d1) = (mean', denom', diag')"
      by simp
    from Cons.IH [OF this] v True show ?thesis by simp
  next
    case False
    with Cons.prems v
    have "mean_loop E rest (plus_sf E mean val, Suc denom, d1) = (mean', denom', diag')"
      by simp
    from Cons.IH [OF this] v False show ?thesis by simp
  qed
qed

lemma compute_mean_returned:
  "returned (compute_mean E sfs dg opts) = mean_of E (contributing E sfs dg opts)"
proof (cases "ignore_invalid opts")
  case True
  obtain m n d where l: "mean_loop E sfs (zero_sf E, 0, sink E dg) = (m, n, d)"
    by (cases "mean_loop E sfs (zero_sf E, 0, sink E dg)")
  from mean_loop_closed [OF l] True l show ?thesis
    by (simp add: compute_mean_def mean_of_def contributing_def sum_sf_def)
next
  case False
  then show ?thesis
    by (simp add: compute_mean_def mean_of_def contributing_def sum_sf_def)
qed

lemma compute_mean_sf_out: "sf_out (compute_mean E sfs dg opts) = sfs"
  by (simp add: compute_mean_def split: prod.splits)

lemma compute_returned:
  "returned (compute E sfs dg opts) = returned (compute_mean E sfs dg opts)"
  by (simp add: compute_def Let_def)

lemma compute_sf_out:
  "sf_out (compute E sfs dg opts) =
     (if nonzero_sf E (returned (compute_mean E sfs dg opts))
      then map (\<lambda>x. div_sf E x (returned (compute_mean E sfs dg opts))) sfs else sfs)"
  by (simp add: compute_def Let_def compute_mean_sf_out)

lemma compute_diag_out:
  "diag_out (compute E sfs dg opts) = diag_out (compute_mean E sfs dg opts)"
  by (simp add: compute_def Let_def)

lemma accepted_subset: "set (accepted E xs d) \<subseteq> set xs"
  by (induction xs arbitrary: d) (auto split: prod.splits)

lemma contributing_subset: "set (contributing E sfs dg opts) \<subseteq> set sfs"
  using accepted_subset [of E sfs] by (simp add: contributing_def)

lemma sum_sf_zeros:
  "zero_laws E \<Longrightarrow> \<forall>x\<in>set vals. \<not> nonzero_sf E x \<Longrightarrow> sum_sf E vals = zero_sf E"
  unfolding sum_sf_def
  by (induction vals) (simp_all add: zero_laws_def)

lemma mean_of_zeros:
  "zero_laws E \<Longrightarrow> \<forall>x\<in>set vals. \<not> nonzero_sf E x \<Longrightarrow> mean_of E vals = zero_sf E"
  by (simp add: mean_of_def sum_sf_zeros) (simp add: zero_laws_def)

subsection \<open>Global centering\<close>

text \<open>
  Claim C1. \<open>compute\<close> returns the mean that \<open>compute_mean\<close> gives for the same
  arguments. When that mean converts to \<open>true\<close> (is non-zero), every element of the
  array is replaced by its quotient by the mean; when it is zero the array is as it
  was. In particular, for an array whose elements are all zero, and an arithmetic with
  the laws of zero, the returned mean is zero and the array is unchanged, for either
  setting of \<open>ignore_invalid\<close> and whatever the classifier accepts.
\<close>

theorem compute_centers:
  "returned (compute E sfs dg opts) = returned (compute_mean E sfs dg opts)
   \<and> length (sf_out (compute E sfs dg opts)) = length sfs
   \<and> (nonzero_sf E (returned (compute_mean E sfs dg opts)) \<longrightarrow>
        (\<forall>i<length sfs. sf_out (compute E sfs dg opts) ! i
            = div_sf E (sfs ! i) (returned (compute_mean E sfs dg opts))))
   \<and> (\<not> nonzero_sf E (returned (compute_mean E sfs dg opts)) \<longrightarrow>
        sf_out (compute E sfs dg opts) = sfs)
   \<and> (zero_laws E \<and> (\<forall>x\<in>set sfs. \<not> nonzero_sf E x) \<longrightarrow>
        returned (compute E sfs dg opts) = zero_sf E \<and> sf_out (compute E sfs dg opts) = sfs)"
proof -
  have z: "returned (compute_mean E sfs dg opts) = zero_sf E"
    if "zero_laws E" and "\<forall>x\<in>set sfs. \<not> nonzero_sf E x"
  proof -
    from that(2) contributing_subset [of E sfs dg opts]
    have "\<forall>x\<in>set (contributing E sfs dg opts). \<not> nonzero_sf E x" by blast
    with that(1) show ?thesis by (simp add: compute_mean_returned mean_of_zeros)
  qed
  have nz: "\<not> nonzero_sf E (zero_sf E)" if "zero_laws E"
    using that by (simp add: zero_laws_def)
  show ?thesis
    using z nz by (auto simp: compute_returned compute_sf_out)
qed

theorem compute_centers_witness:
  "returned (compute fp_ops [Finite 1, Finite 3] None default_Options) = Finite 2
   \<and> sf_out (compute fp_ops [Finite 1, Finite 3] None default_Options) ! 0 = Finite (1/2)
   \<and> sf_out (compute fp_ops [Finite 1, Finite 3] None default_Options) ! 1 = Finite (3/2)
   \<and> returned (compute fp_ops [Finite 0, Finite 0] None
        \<lparr>block_mode = LOWEST, ignore_invalid = False\<rparr>) = Finite 0
   \<and> sf_out (compute fp_ops [Finite 0, Finite 0] None
        \<lparr>block_mode = LOWEST, ignore_invalid = False\<rparr>) = [Finite 0, Finite 0]"
proof -
  let ?xs = "[Finite 1, Finite 3]" and ?zs = "[Finite 0, Finite 0]"
  let ?o = "\<lparr>block_mode = LOWEST, ignore_invalid = False\<rparr>"
  have m: "returned (compute_mean fp_ops ?xs None default_Options) = Finite 2"
    by (simp add: compute_mean_def default_Options_def fp_eval)
  then have nz: "nonzero_sf fp_ops (returned (compute_mean fp_ops ?xs None default_Options))"
    by (simp add: fp_eval)
  have zs: "zero_laws fp_ops \<and> (\<forall>x\<in>set ?zs. \<not> nonzero_sf fp_ops x)"
    using fp_zero_laws by (simp add: fp_eval)
  from compute_centers [of fp_ops ?xs None default_Options] nz m
  have a: "returned (compute fp_ops ?xs None default_Options) = Finite 2
      \<and> sf_out (compute fp_ops ?xs None default_Options) ! 0 = Finite (1/2)
      \<and> sf_out (compute fp_ops ?xs None default_Options) ! 1 = Finite (3/2)"
    by (simp add: fp_eval)
  from compute_centers [of fp_ops ?zs None ?o] zs
  have "returned (compute fp_ops ?zs None ?o) = zero_sf fp_ops
      \<and> sf_out (compute fp_ops ?zs None ?o) = ?zs"
    by blast
  then have b: "returned (compute fp_ops ?zs None ?o) = Finite 0
      \<and> sf_out (compute fp_ops ?zs None ?o) = ?zs"
    by (simp add: fp_ops_simps)
  from a b show ?thesis by simp
qed

subsection \<open>The global mean\<close>

text \<open>
  Claim C4. With \<open>ignore_invalid = true\<close>, \<open>compute_mean\<close> returns the sum of the
  values the classifier accepts divided by their count: only they enter the running
  sum and count. Whenever nothing contributes (no accepted value when
  \<open>ignore_invalid\<close> is true, an empty array when it is false), it returns zero and no
  division takes place.
\<close>

theorem compute_mean_valid_only:
  "(ignore_invalid opts \<and> accepted E sfs (sink E dg) \<noteq> [] \<longrightarrow>
      returned (compute_mean E sfs dg opts)
        = div_sf E (sum_sf E (accepted E sfs (sink E dg)))
            (of_size_t E (length (accepted E sfs (sink E dg)))))
   \<and> (length (contributing E sfs dg opts) = 0 \<longrightarrow>
        returned (compute_mean E sfs dg opts) = zero_sf E)"
  by (simp add: compute_mean_returned mean_of_def contributing_def)

theorem compute_mean_valid_only_witness:
  "accepted fp_ops [Finite 1, Finite (-1), NaN, Finite 3] fresh_Diagnostics = [Finite 1, Finite 3]
   \<and> returned (compute_mean fp_ops [Finite 1, Finite (-1), NaN, Finite 3] None default_Options)
       = Finite 2
   \<and> contributing fp_ops [Finite (-1), PosInf] None default_Options = []
   \<and> returned (compute_mean fp_ops [Finite (-1), PosInf] None default_Options) = Finite 0
   \<and> returned (compute_mean fp_ops [] None \<lparr>block_mode = LOWEST, ignore_invalid = False\<rparr>)
       = Finite 0"
proof -
  let ?xs = "[Finite 1, Finite (-1), NaN, Finite 3]" and ?ys = "[Finite (-1), PosInf]"
  let ?o = "\<lparr>block_mode = LOWEST, ignore_invalid = False\<rparr>"
  have a: "accepted fp_ops ?xs fresh_Diagnostics = [Finite 1, Finite 3]"
    by (simp add: fp_eval)
  have c: "contributing fp_ops ?ys None default_Options = []"
    by (simp add: contributing_def default_Options_def fp_eval)
  have e: "contributing fp_ops [] None ?o = []"
    by (simp add: contributing_def)
  have i: "ignore_invalid default_Options" by (simp add: default_Options_def)
  from compute_mean_valid_only [of default_Options fp_ops ?xs None] a i
  have "returned (compute_mean fp_ops ?xs None default_Options) = Finite 2"
    by (simp add: sum_sf_def fp_eval)
  moreover from compute_mean_valid_only [of default_Options fp_ops ?ys None] c
  have "returned (compute_mean fp_ops ?ys None default_Options) = Finite 0"
    by (simp add: fp_eval)
  moreover from compute_mean_valid_only [of ?o fp_ops "[]" None] e
  have "returned (compute_mean fp_ops [] None ?o) = Finite 0"
    by (simp add: fp_eval)
  ultimately show ?thesis using a c by simp
qed

subsection \<open>The per-block means in closed form\<close>

lemma blocked_loop_valid_all:
  "blocked_loop_valid E cells (gm, gn, d) = (gm', gn', d') \<Longrightarrow>
     blocked_loop_all E (accepted_cells E cells d) (gm, gn) = (gm', gn')"
proof (induction cells arbitrary: gm gn d)
  case Nil
  then show ?case by simp
next
  case (Cons cell rest)
  obtain val b where c: "cell = (val, b)" by (cases cell)
  obtain invalid d1 where v: "is_invalid E val d = (invalid, d1)"
    by (cases "is_invalid E val d")
  show ?case
  proof (cases invalid)
    case True
    with Cons.prems c v have "blocked_loop_valid E rest (gm, gn, d1) = (gm', gn', d')"
      by simp
    from Cons.IH [OF this] c v True show ?thesis by simp
  next
    case False
    with Cons.prems c v
    have "blocked_loop_valid E rest
            (gm[b := plus_sf E (gm ! b) val], gn[b := Suc (gn ! b)], d1) = (gm', gn', d')"
      by simp
    from Cons.IH [OF this] c v False show ?thesis by simp
  qed
qed

lemma blocked_loop_all_length:
  "blocked_loop_all E cells (gm, gn) = (gm', gn') \<Longrightarrow>
     length gm' = length gm \<and> length gn' = length gn"
proof (induction cells arbitrary: gm gn)
  case Nil
  then show ?case by simp
next
  case (Cons cell rest)
  obtain val b where c: "cell = (val, b)" by (cases cell)
  from Cons.prems c
  have "blocked_loop_all E rest (gm[b := plus_sf E (gm ! b) val], gn[b := Suc (gn ! b)])
          = (gm', gn')" by simp
  from Cons.IH [OF this] show ?case by simp
qed

lemma blocked_loop_all_nth:
  "blocked_loop_all E cells (gm, gn) = (gm', gn') \<Longrightarrow> b < length gm \<Longrightarrow> b < length gn \<Longrightarrow>
     gm' ! b = foldl (plus_sf E) (gm ! b) (block_values b cells)
     \<and> gn' ! b = gn ! b + length (block_values b cells)"
proof (induction cells arbitrary: gm gn)
  case Nil
  then show ?case by (simp add: block_values_def)
next
  case (Cons cell rest)
  obtain val c where c: "cell = (val, c)" by (cases cell)
  let ?gm = "gm[c := plus_sf E (gm ! c) val]" and ?gn = "gn[c := Suc (gn ! c)]"
  from Cons.prems(1) c have l: "blocked_loop_all E rest (?gm, ?gn) = (gm', gn')" by simp
  from Cons.prems have b: "b < length ?gm" "b < length ?gn" by simp_all
  note ih = Cons.IH [OF l b]
  show ?case
  proof (cases "c = b")
    case True
    with ih c Cons.prems(2,3) show ?thesis by (simp add: block_values_def)
  next
    case False
    with ih c show ?thesis by (simp add: block_values_def)
  qed
qed

lemma finish_means_nth:
  "b < length gm \<Longrightarrow> b < length gn \<Longrightarrow>
     finish_means E gm gn ! b
       = (if gn ! b \<noteq> 0 then div_sf E (gm ! b) (of_size_t E (gn ! b)) else gm ! b)"
  by (simp add: finish_means_def)

lemma finish_means_length:
  "length gn = length gm \<Longrightarrow> length (finish_means E gm gn) = length gm"
  by (simp add: finish_means_def)

text \<open>The state \<open>compute_blocked_mean\<close> accumulates, whichever loop ran.\<close>

lemma compute_blocked_mean_Some:
  assumes "length block = length sfs"
  shows "\<exists>gm gn dg'.
          blocked_loop_all E (contributing_cells E (zip sfs block) dg opts)
             (replicate (total_groups block) (zero_sf E), replicate (total_groups block) 0)
            = (gm, gn)
          \<and> compute_blocked_mean E sfs block dg opts
            = Some \<lparr>returned = finish_means E gm gn, sf_out = sfs, diag_out = dg'\<rparr>"
proof (cases "ignore_invalid opts")
  case True
  let ?gm0 = "replicate (total_groups block) (zero_sf E)"
  let ?gn0 = "replicate (total_groups block) (0::nat)"
  obtain gm gn d where l:
    "blocked_loop_valid E (zip sfs block) (?gm0, ?gn0, sink E dg) = (gm, gn, d)"
    by (cases "blocked_loop_valid E (zip sfs block) (?gm0, ?gn0, sink E dg)")
  from blocked_loop_valid_all [OF l] l True assms show ?thesis
    by (simp add: compute_blocked_mean_def contributing_cells_def Let_def)
next
  case False
  let ?gm0 = "replicate (total_groups block) (zero_sf E)"
  let ?gn0 = "replicate (total_groups block) (0::nat)"
  obtain gm gn where l: "blocked_loop_all E (zip sfs block) (?gm0, ?gn0) = (gm, gn)"
    by (cases "blocked_loop_all E (zip sfs block) (?gm0, ?gn0)")
  from l False assms show ?thesis
    by (simp add: compute_blocked_mean_def contributing_cells_def Let_def)
qed

lemma compute_blocked_mean_None:
  "length block \<noteq> length sfs \<Longrightarrow> compute_blocked_mean E sfs block dg opts = None"
  by (simp add: compute_blocked_mean_def)

lemma compute_blocked_mean_closed:
  assumes len: "length block = length sfs"
    and r: "compute_blocked_mean E sfs block dg opts = Some r"
  shows "sf_out r = sfs"
    and "length (returned r) = total_groups block"
    and "b < total_groups block \<Longrightarrow>
           returned r ! b
             = mean_of E (block_values b (contributing_cells E (zip sfs block) dg opts))"
proof -
  let ?n = "total_groups block"
  let ?cells = "contributing_cells E (zip sfs block) dg opts"
  from compute_blocked_mean_Some [OF len, of E dg opts] r
  obtain gm gn dg' where
    l: "blocked_loop_all E ?cells (replicate ?n (zero_sf E), replicate ?n 0) = (gm, gn)"
    and r': "r = \<lparr>returned = finish_means E gm gn, sf_out = sfs, diag_out = dg'\<rparr>"
    by auto
  from r' show "sf_out r = sfs" by simp
  from blocked_loop_all_length [OF l] have lens: "length gm = ?n" "length gn = ?n"
    by simp_all
  with r' show "length (returned r) = ?n" by (simp add: finish_means_length)
  assume b: "b < ?n"
  with blocked_loop_all_nth [OF l, of b]
  have "gm ! b = foldl (plus_sf E) (zero_sf E) (block_values b ?cells)"
    and "gn ! b = length (block_values b ?cells)"
    by simp_all
  with b lens r' show "returned r ! b = mean_of E (block_values b ?cells)"
    by (simp add: finish_means_nth mean_of_def sum_sf_def)
qed

lemma label_below_total_groups: "b \<in> set block \<Longrightarrow> b < total_groups block"
  by (auto simp: total_groups_def less_Suc_eq_le)

lemma compute_blocked_eq:
  "compute_blocked_mean E sfs block dg opts
       = Some \<lparr>returned = means, sf_out = sfs', diag_out = d\<rparr> \<Longrightarrow>
     compute_blocked E sfs block dg opts
       = Some \<lparr>returned = means,
               sf_out = (case block_mode opts of
                           PER_BLOCK \<Rightarrow> rescale_per_block E means (zip sfs' block)
                         | LOWEST \<Rightarrow> rescale_lowest E means sfs'),
               diag_out = d\<rparr>"
  by (simp add: compute_blocked_def Let_def split: BlockMode.splits)

lemma compute_blocked_None:
  "(compute_blocked E sfs block dg opts = None) = (length block \<noteq> length sfs)"
proof (cases "length block = length sfs")
  case True
  from compute_blocked_mean_Some [OF True, of E dg opts] True show ?thesis
    by (auto simp: compute_blocked_def Let_def)
next
  case False
  then show ?thesis by (simp add: compute_blocked_def compute_blocked_mean_None)
qed

subsection \<open>The vector returned by blocked centering\<close>

text \<open>
  Claim C7. For both block modes, \<open>compute_blocked\<close> returns the vector of per-block
  means exactly as \<open>compute_blocked_mean\<close> computes it for the same arguments: neither
  rescaling touches the returned vector.
\<close>

theorem compute_blocked_returns_means:
  "map_option returned (compute_blocked E sfs block dg opts)
     = map_option returned (compute_blocked_mean E sfs block dg opts)
   \<and> (length block = length sfs \<longrightarrow>
        (\<exists>r m. compute_blocked E sfs block dg opts = Some r
           \<and> compute_blocked_mean E sfs block dg opts = Some m
           \<and> returned r = returned m))"
proof -
  have a: "map_option returned (compute_blocked E sfs block dg opts)
     = map_option returned (compute_blocked_mean E sfs block dg opts)"
    by (simp add: compute_blocked_def Let_def split: option.splits)
  have "\<exists>r m. compute_blocked E sfs block dg opts = Some r
           \<and> compute_blocked_mean E sfs block dg opts = Some m
           \<and> returned r = returned m" if "length block = length sfs"
  proof -
    from compute_blocked_mean_Some [OF that, of E dg opts]
    obtain gm gn d where m: "compute_blocked_mean E sfs block dg opts
        = Some \<lparr>returned = finish_means E gm gn, sf_out = sfs, diag_out = d\<rparr>" by auto
    from compute_blocked_eq [OF m] m show ?thesis by simp
  qed
  with a show ?thesis by blast
qed

lemmas blocked_eval = compute_blocked_def compute_blocked_mean_def total_groups_def
  finish_means_def rescale_lowest_def rescale_per_block_def Let_def

theorem compute_blocked_returns_means_witness:
  "map_option returned (compute_blocked fp_ops [Finite 1, Finite 3, Finite 4, Finite 8]
       [0, 0, 1, 2] None default_Options) = Some [Finite 2, Finite 4, Finite 8]
   \<and> map_option returned (compute_blocked fp_ops [Finite 1, Finite 3, Finite 4, Finite 8]
       [0, 0, 1, 2] None \<lparr>block_mode = PER_BLOCK, ignore_invalid = True\<rparr>)
       = Some [Finite 2, Finite 4, Finite 8]
   \<and> map_option sf_out (compute_blocked fp_ops [Finite 1, Finite 3, Finite 4, Finite 8]
       [0, 0, 1, 2] None default_Options)
       = Some [Finite (1/2), Finite (3/2), Finite 2, Finite 4]"
proof -
  let ?xs = "[Finite 1, Finite 3, Finite 4, Finite 8]" and ?bs = "[0, 0, 1, 2::nat]"
  let ?o = "\<lparr>block_mode = PER_BLOCK, ignore_invalid = True\<rparr>"
  have m: "map_option returned (compute_blocked_mean fp_ops ?xs ?bs None default_Options)
      = Some [Finite 2, Finite 4, Finite 8]"
    by (simp add: compute_blocked_mean_def total_groups_def finish_means_def Let_def
        default_Options_def fp_eval)
  have m': "map_option returned (compute_blocked_mean fp_ops ?xs ?bs None ?o)
      = Some [Finite 2, Finite 4, Finite 8]"
    by (simp add: compute_blocked_mean_def total_groups_def finish_means_def Let_def fp_eval)
  have s: "map_option sf_out (compute_blocked fp_ops ?xs ?bs None default_Options)
       = Some [Finite (1/2), Finite (3/2), Finite 2, Finite 4]"
    by (simp add: blocked_eval default_Options_def fp_eval)
  from compute_blocked_returns_means [of fp_ops ?xs ?bs None default_Options]
    compute_blocked_returns_means [of fp_ops ?xs ?bs None ?o] m m' s
  show ?thesis by simp
qed

subsection \<open>The diagnostics pointer\<close>

text \<open>
  Claim C10. A call of \<open>compute\<close> or \<open>compute_blocked\<close> with a \<open>NULL\<close> diagnostics
  pointer returns the same value and leaves the same array as the call with a pointer
  to a freshly default-constructed \<open>Diagnostics\<close>, for every input and all options.
\<close>

theorem null_diagnostics_same_result:
  "returned (compute E sfs None opts) = returned (compute E sfs (Some (new_Diagnostics E)) opts)
   \<and> sf_out (compute E sfs None opts) = sf_out (compute E sfs (Some (new_Diagnostics E)) opts)
   \<and> map_option returned (compute_blocked E sfs block None opts)
       = map_option returned (compute_blocked E sfs block (Some (new_Diagnostics E)) opts)
   \<and> map_option sf_out (compute_blocked E sfs block None opts)
       = map_option sf_out (compute_blocked E sfs block (Some (new_Diagnostics E)) opts)"
proof -
  have m: "returned (compute_mean E sfs None opts)
      = returned (compute_mean E sfs (Some (new_Diagnostics E)) opts)"
    by (simp add: compute_mean_returned contributing_def sink_def)
  have c: "contributing_cells E (zip sfs block) None opts
      = contributing_cells E (zip sfs block) (Some (new_Diagnostics E)) opts"
    by (simp add: contributing_cells_def sink_def)
  have b: "map_option returned (compute_blocked E sfs block None opts)
       = map_option returned (compute_blocked E sfs block (Some (new_Diagnostics E)) opts)
     \<and> map_option sf_out (compute_blocked E sfs block None opts)
       = map_option sf_out (compute_blocked E sfs block (Some (new_Diagnostics E)) opts)"
  proof (cases "length block = length sfs")
    case True
    from compute_blocked_mean_Some [OF True, of E None opts]
      compute_blocked_mean_Some [OF True, of E "Some (new_Diagnostics E)" opts] c
    obtain gm gn d1 d2 where
      m1: "compute_blocked_mean E sfs block None opts
         = Some \<lparr>returned = finish_means E gm gn, sf_out = sfs, diag_out = d1\<rparr>" and
      m2: "compute_blocked_mean E sfs block (Some (new_Diagnostics E)) opts
         = Some \<lparr>returned = finish_means E gm gn, sf_out = sfs, diag_out = d2\<rparr>"
      by auto
    from compute_blocked_eq [OF m1] compute_blocked_eq [OF m2] show ?thesis by simp
  next
    case False
    then show ?thesis by (simp add: compute_blocked_def compute_blocked_mean_None)
  qed
  from m b show ?thesis by (simp add: compute_returned compute_sf_out)
qed

theorem null_diagnostics_same_result_witness:
  "returned (compute fp_ops [Finite 1, Finite (-1), NaN, Finite 3]
      (Some fresh_Diagnostics) default_Options) = Finite 2
   \<and> sf_out (compute fp_ops [Finite 1, Finite (-1), NaN, Finite 3]
      (Some fresh_Diagnostics) default_Options)
      = [Finite (1/2), Finite (- (1/2)), NaN, Finite (3/2)]
   \<and> map_option returned (compute_blocked fp_ops [Finite 1, Finite (-1), NaN, Finite 3]
      [0, 1, 1, 0] (Some fresh_Diagnostics) default_Options) = Some [Finite 2, Finite 0]
   \<and> map_option sf_out (compute_blocked fp_ops [Finite 1, Finite (-1), NaN, Finite 3]
      [0, 1, 1, 0] (Some fresh_Diagnostics) default_Options)
      = Some [Finite (1/2), Finite (- (1/2)), NaN, Finite (3/2)]"
proof -
  let ?xs = "[Finite 1, Finite (-1), NaN, Finite 3]" and ?bs = "[0, 1, 1, 0::nat]"
  have a: "returned (compute fp_ops ?xs None default_Options) = Finite 2"
    by (simp add: compute_def compute_mean_def Let_def default_Options_def fp_eval)
  have b: "sf_out (compute fp_ops ?xs None default_Options)
      = [Finite (1/2), Finite (- (1/2)), NaN, Finite (3/2)]"
    by (simp add: compute_def compute_mean_def Let_def default_Options_def fp_eval)
  have c: "map_option returned (compute_blocked fp_ops ?xs ?bs None default_Options)
      = Some [Finite 2, Finite 0]"
    by (simp add: blocked_eval default_Options_def fp_eval)
  have d: "map_option sf_out (compute_blocked fp_ops ?xs ?bs None default_Options)
      = Some [Finite (1/2), Finite (- (1/2)), NaN, Finite (3/2)]"
    by (simp add: blocked_eval default_Options_def fp_eval)
  from null_diagnostics_same_result [of fp_ops ?xs default_Options ?bs] a b c d
  show ?thesis by (simp add: fp_ops_simps)
qed

text \<open>
  Claim C9. With \<open>ignore_invalid = false\<close>, each of \<open>compute_mean\<close>, \<open>compute\<close>,
  \<open>compute_blocked_mean\<close> and \<open>compute_blocked\<close> leaves the caller's diagnostics
  exactly as they were (not written), and what it returns and leaves in the array is
  the same for any other diagnostics argument (not read).
\<close>

theorem diagnostics_bypassed:
  assumes "\<not> ignore_invalid opts"
  shows "diag_out (compute_mean E sfs dg opts) = dg
   \<and> diag_out (compute E sfs dg opts) = dg
   \<and> map_option diag_out (compute_blocked_mean E sfs block dg opts)
       = (if length block = length sfs then Some dg else None)
   \<and> map_option diag_out (compute_blocked E sfs block dg opts)
       = (if length block = length sfs then Some dg else None)
   \<and> returned (compute_mean E sfs dg opts) = returned (compute_mean E sfs dg' opts)
   \<and> returned (compute E sfs dg opts) = returned (compute E sfs dg' opts)
   \<and> sf_out (compute E sfs dg opts) = sf_out (compute E sfs dg' opts)
   \<and> map_option returned (compute_blocked_mean E sfs block dg opts)
       = map_option returned (compute_blocked_mean E sfs block dg' opts)
   \<and> map_option returned (compute_blocked E sfs block dg opts)
       = map_option returned (compute_blocked E sfs block dg' opts)
   \<and> map_option sf_out (compute_blocked E sfs block dg opts)
       = map_option sf_out (compute_blocked E sfs block dg' opts)"
proof -
  have m: "compute_mean E sfs d opts
      = \<lparr>returned = mean_of E sfs, sf_out = sfs, diag_out = d\<rparr>" for d
    using assms by (simp add: compute_mean_def mean_of_def sum_sf_def)
  have c: "compute E sfs d opts
      = \<lparr>returned = mean_of E sfs,
         sf_out = (if nonzero_sf E (mean_of E sfs)
                   then map (\<lambda>x. div_sf E x (mean_of E sfs)) sfs else sfs),
         diag_out = d\<rparr>" for d
    by (simp add: compute_def Let_def m)
  obtain gm gn where l: "blocked_loop_all E (zip sfs block)
      (replicate (total_groups block) (zero_sf E), replicate (total_groups block) 0) = (gm, gn)"
    by (cases "blocked_loop_all E (zip sfs block)
      (replicate (total_groups block) (zero_sf E), replicate (total_groups block) 0)")
  have bm: "compute_blocked_mean E sfs block d opts
      = (if length block = length sfs
         then Some \<lparr>returned = finish_means E gm gn, sf_out = sfs, diag_out = d\<rparr> else None)"
    for d
    using assms l by (simp add: compute_blocked_mean_def Let_def)
  have b: "compute_blocked E sfs block d opts
      = (if length block = length sfs
         then Some \<lparr>returned = finish_means E gm gn,
                    sf_out = (case block_mode opts of
                       PER_BLOCK \<Rightarrow> rescale_per_block E (finish_means E gm gn) (zip sfs block)
                     | LOWEST \<Rightarrow> rescale_lowest E (finish_means E gm gn) sfs),
                    diag_out = d\<rparr> else None)"
    for d
    by (simp add: compute_blocked_def Let_def bm split: BlockMode.splits)
  show ?thesis by (simp add: m c bm b)
qed

theorem diagnostics_bypassed_witness:
  "diag_out (compute_mean fp_ops [Finite 1, Finite (-1), NaN, Finite 3]
      (Some fresh_Diagnostics) \<lparr>block_mode = LOWEST, ignore_invalid = False\<rparr>)
     = Some fresh_Diagnostics
   \<and> diag_out (compute fp_ops [Finite 1, Finite (-1), NaN, Finite 3]
      (Some fresh_Diagnostics) \<lparr>block_mode = LOWEST, ignore_invalid = False\<rparr>)
     = Some fresh_Diagnostics
   \<and> map_option diag_out (compute_blocked_mean fp_ops [Finite 1, Finite (-1), NaN, Finite 3]
      [0, 1, 1, 0] (Some fresh_Diagnostics) \<lparr>block_mode = LOWEST, ignore_invalid = False\<rparr>)
     = Some (Some fresh_Diagnostics)
   \<and> map_option diag_out (compute_blocked fp_ops [Finite 1, Finite (-1), NaN, Finite 3]
      [0, 1, 1, 0] (Some fresh_Diagnostics) \<lparr>block_mode = LOWEST, ignore_invalid = False\<rparr>)
     = Some (Some fresh_Diagnostics)"
proof -
  let ?o = "\<lparr>block_mode = LOWEST, ignore_invalid = False\<rparr>"
  have h: "\<not> ignore_invalid ?o" by simp
  from diagnostics_bypassed [OF h, of fp_ops "[Finite 1, Finite (-1), NaN, Finite 3]"
      "Some fresh_Diagnostics" "[0, 1, 1, 0]" None]
  show ?thesis by simp
qed

subsection \<open>The two worked examples\<close>

text \<open>
  Claim C6, as stated, fails: on \<open>[1.0, -1.0, NaN, 3.0]\<close> with \<open>ignore_invalid = true\<close>
  the call does not return mean \<open>2.0\<close>, record a negative and a NaN value, and leave
  \<open>[0.5, -1.0, NaN, 1.5]\<close> all at once, because the second element is divided by the
  mean like every other.
\<close>

theorem example_ignore_invalid_counterexample:
  "\<not> (returned (compute fp_ops [Finite 1, Finite (-1), NaN, Finite 3]
           (Some fresh_Diagnostics) default_Options) = Finite 2
       \<and> map_option has_negative (diag_out (compute fp_ops [Finite 1, Finite (-1), NaN, Finite 3]
           (Some fresh_Diagnostics) default_Options)) = Some True
       \<and> map_option has_nan (diag_out (compute fp_ops [Finite 1, Finite (-1), NaN, Finite 3]
           (Some fresh_Diagnostics) default_Options)) = Some True
       \<and> sf_out (compute fp_ops [Finite 1, Finite (-1), NaN, Finite 3]
           (Some fresh_Diagnostics) default_Options)
         = [Finite (1/2), Finite (-1), NaN, Finite (3/2)])"
  by (simp add: compute_def compute_mean_def Let_def default_Options_def fp_eval)

text \<open>
  Claim C6, amended. On \<open>[1.0, -1.0, NaN, 3.0]\<close> with \<open>ignore_invalid = true\<close>,
  \<open>compute\<close> returns mean \<open>2.0\<close>, computed over \<open>1.0\<close> and \<open>3.0\<close> only, the diagnostics
  record that a negative value and a NaN were seen, and the final array is
  \<open>[0.5, -0.5, NaN, 1.5]\<close>: the invalid entries are divided by the mean and not
  replaced.
\<close>

theorem example_ignore_invalid:
  "compute fp_ops [Finite 1, Finite (-1), NaN, Finite 3] (Some fresh_Diagnostics) default_Options
     = \<lparr>returned = Finite 2,
        sf_out = [Finite (1/2), Finite (- (1/2)), NaN, Finite (3/2)],
        diag_out = Some \<lparr>has_negative = True, has_zero = False,
                          has_nan = True, has_infinite = False\<rparr>\<rparr>
   \<and> contributing fp_ops [Finite 1, Finite (-1), NaN, Finite 3]
        (Some fresh_Diagnostics) default_Options = [Finite 1, Finite 3]"
  by (simp add: compute_def compute_mean_def contributing_def Let_def default_Options_def fp_eval)

text \<open>
  Claim C8. On \<open>[1.0, -1.0, NaN, 3.0]\<close> with \<open>ignore_invalid = false\<close>, all four
  values enter the mean, which is NaN; NaN converts to \<open>true\<close>, so the guard does not
  skip the division, and every element of the array becomes NaN.
\<close>

theorem example_keep_invalid:
  "contributing fp_ops [Finite 1, Finite (-1), NaN, Finite 3] dg
      \<lparr>block_mode = bm, ignore_invalid = False\<rparr> = [Finite 1, Finite (-1), NaN, Finite 3]
   \<and> returned (compute_mean fp_ops [Finite 1, Finite (-1), NaN, Finite 3] dg
      \<lparr>block_mode = bm, ignore_invalid = False\<rparr>) = NaN
   \<and> nonzero_sf fp_ops NaN
   \<and> compute fp_ops [Finite 1, Finite (-1), NaN, Finite 3] dg
      \<lparr>block_mode = bm, ignore_invalid = False\<rparr>
     = \<lparr>returned = NaN, sf_out = [NaN, NaN, NaN, NaN], diag_out = dg\<rparr>"
  by (simp add: compute_def compute_mean_def contributing_def Let_def fp_eval)

subsection \<open>The per-block means\<close>

text \<open>
  Claim C5. \<open>compute_blocked_mean\<close> returns a vector with one entry per block. The
  entry of block \<open>b\<close> is the sum of the contributing values labelled \<open>b\<close> (all
  values when \<open>ignore_invalid\<close> is false, the accepted ones when it is true), each added
  to the sum and count of its own block, divided by their count, and zero when no
  value of the block contributes. The array of size factors is left as it was.
\<close>

theorem compute_blocked_mean_per_block:
  assumes "length block = length sfs"
  shows "\<exists>r. compute_blocked_mean E sfs block dg opts = Some r
     \<and> length (returned r) = total_groups block
     \<and> sf_out r = sfs
     \<and> (\<forall>b<total_groups block.
           returned r ! b =
             (let vals = block_values b (contributing_cells E (zip sfs block) dg opts)
              in if length vals \<noteq> 0
                 then div_sf E (sum_sf E vals) (of_size_t E (length vals))
                 else zero_sf E))"
proof -
  from compute_blocked_mean_Some [OF assms, of E dg opts]
  obtain r where r: "compute_blocked_mean E sfs block dg opts = Some r" by auto
  from compute_blocked_mean_closed [OF assms r] r show ?thesis
    by (simp add: mean_of_def Let_def)
qed

theorem compute_blocked_mean_per_block_witness:
  "map_option returned (compute_blocked_mean fp_ops
       [Finite 1, Finite (-1), Finite 4, Finite 3] [0, 2, 2, 0] None default_Options)
     = Some [Finite 2, Finite 0, Finite 4]
   \<and> map_option sf_out (compute_blocked_mean fp_ops
       [Finite 1, Finite (-1), Finite 4, Finite 3] [0, 2, 2, 0] None default_Options)
     = Some [Finite 1, Finite (-1), Finite 4, Finite 3]"
proof -
  let ?xs = "[Finite 1, Finite (-1), Finite 4, Finite 3]" and ?bs = "[0, 2, 2, 0::nat]"
  have len: "length ?bs = length ?xs" by simp
  have n: "total_groups ?bs = 3" by (simp add: total_groups_def)
  have c: "contributing_cells fp_ops (zip ?xs ?bs) None default_Options
      = [(Finite 1, 0), (Finite 4, 2), (Finite 3, 0)]"
    by (simp add: contributing_cells_def default_Options_def fp_eval)
  from compute_blocked_mean_per_block [OF len, of fp_ops None default_Options]
  obtain r where r: "compute_blocked_mean fp_ops ?xs ?bs None default_Options = Some r"
    and l: "length (returned r) = total_groups ?bs" and s: "sf_out r = ?xs"
    and v: "\<forall>b<total_groups ?bs. returned r ! b =
             (let vals = block_values b (contributing_cells fp_ops (zip ?xs ?bs) None default_Options)
              in if length vals \<noteq> 0
                 then div_sf fp_ops (sum_sf fp_ops vals) (of_size_t fp_ops (length vals))
                 else zero_sf fp_ops)"
    by blast
  from v n c have "returned r ! 0 = Finite 2" "returned r ! 1 = Finite 0" "returned r ! 2 = Finite 4"
    by (simp_all add: block_values_def sum_sf_def fp_eval)
  with l n have "returned r = [Finite 2, Finite 0, Finite 4]"
    by (auto simp: list_eq_iff_nth_eq less_Suc_eq numeral_3_eq_3 numeral_2_eq_2)
  with r s show ?thesis by simp
qed

subsection \<open>Blocked centering, mode PER\_BLOCK\<close>

lemma accepted_filter:
  "verdict_fixed E \<Longrightarrow>
     accepted E xs d = filter (\<lambda>v. \<not> fst (is_invalid E v d0)) xs"
proof (induction xs arbitrary: d)
  case Nil
  then show ?case by simp
next
  case (Cons val rest)
  obtain invalid d1 where v: "is_invalid E val d = (invalid, d1)"
    by (cases "is_invalid E val d")
  from Cons.prems have "fst (is_invalid E val d0) = fst (is_invalid E val d)"
    unfolding verdict_fixed_def by blast
  with v have "fst (is_invalid E val d0) = invalid" by simp
  with Cons.IH [OF Cons.prems, of d1] v show ?case by simp
qed

lemma accepted_cells_filter:
  "verdict_fixed E \<Longrightarrow>
     accepted_cells E cells d = filter (\<lambda>c. \<not> fst (is_invalid E (fst c) d0)) cells"
proof (induction cells arbitrary: d)
  case Nil
  then show ?case by simp
next
  case (Cons cell rest)
  obtain val b where c: "cell = (val, b)" by (cases cell)
  obtain invalid d1 where v: "is_invalid E val d = (invalid, d1)"
    by (cases "is_invalid E val d")
  from Cons.prems have "fst (is_invalid E val d0) = fst (is_invalid E val d)"
    unfolding verdict_fixed_def by blast
  with v have "fst (is_invalid E val d0) = invalid" by simp
  with Cons.IH [OF Cons.prems, of d1] v c show ?case by simp
qed

lemma block_values_filter:
  "block_values b (filter (\<lambda>c. P (fst c)) cells) = filter P (block_values b cells)"
  by (induction cells) (simp_all add: block_values_def)

lemma block_values_contributing:
  assumes "ignore_invalid opts \<longrightarrow> verdict_fixed E"
  shows "block_values b (contributing_cells E cells dg opts)
           = contributing E (block_values b cells) dg2 opts"
proof (cases "ignore_invalid opts")
  case True
  with assms have f: "verdict_fixed E" by simp
  let ?ok = "\<lambda>v. \<not> fst (is_invalid E v (new_Diagnostics E))"
  have "block_values b (accepted_cells E cells (sink E dg))
      = block_values b (filter (\<lambda>c. ?ok (fst c)) cells)"
    by (simp add: accepted_cells_filter [OF f, of cells _ "new_Diagnostics E"])
  also have "\<dots> = filter ?ok (block_values b cells)"
    by (rule block_values_filter)
  also have "\<dots> = accepted E (block_values b cells) (sink E dg2)"
    by (simp add: accepted_filter [OF f, of _ _ "new_Diagnostics E"])
  finally show ?thesis
    using True by (simp add: contributing_cells_def contributing_def)
next
  case False
  then show ?thesis by (simp add: contributing_cells_def contributing_def)
qed

lemma block_values_rescale:
  "length sfs = length block \<Longrightarrow>
     block_values b (zip (rescale_per_block E gm (zip sfs block)) block)
       = map (\<lambda>x. if nonzero_sf E (gm ! b) then div_sf E x (gm ! b) else x)
           (block_values b (zip sfs block))"
  by (induction sfs block rule: list_induct2)
     (simp_all add: block_values_def rescale_per_block_def Let_def)

lemma block_values_nonempty:
  "block_values b (zip sfs block) \<noteq> [] \<Longrightarrow> b \<in> set block"
  by (auto simp: block_values_def filter_empty_conv dest: set_zip_rightD)

lemma rescale_per_block_nth:
  "length sfs = length block \<Longrightarrow> i < length sfs \<Longrightarrow>
     rescale_per_block E gm (zip sfs block) ! i
       = (if nonzero_sf E (gm ! (block ! i)) then div_sf E (sfs ! i) (gm ! (block ! i))
          else sfs ! i)"
  by (simp add: rescale_per_block_def Let_def)

text \<open>
  Claim C3. In mode \<open>PER_BLOCK\<close>, for every block \<open>b\<close>, the entries of block \<open>b\<close>
  after \<open>compute_blocked\<close> are exactly the array that \<open>compute\<close> leaves when run, with
  the same options, on the entries of block \<open>b\<close> alone, and the mean returned for
  \<open>b\<close> is the mean that run returns. Every value is divided by the mean of its own
  block, and only when that mean is non-zero. Where values are filtered the classifier
  is taken to judge a value by the value alone.
\<close>

theorem per_block_is_isolated_compute:
  assumes len: "length block = length sfs"
    and mode: "block_mode opts = PER_BLOCK"
    and fixed: "ignore_invalid opts \<longrightarrow> verdict_fixed E"
  shows "\<exists>r. compute_blocked E sfs block dg opts = Some r
     \<and> length (sf_out r) = length sfs
     \<and> block_values b (zip (sf_out r) block)
         = sf_out (compute E (block_values b (zip sfs block)) dg2 opts)
     \<and> (b \<in> set block \<longrightarrow>
          returned r ! b = returned (compute E (block_values b (zip sfs block)) dg2 opts))
     \<and> (\<forall>i<length sfs.
          sf_out r ! i =
            (if nonzero_sf E (returned r ! (block ! i))
             then div_sf E (sfs ! i) (returned r ! (block ! i)) else sfs ! i))"
proof -
  let ?sub = "block_values b (zip sfs block)"
  from compute_blocked_mean_Some [OF len, of E dg opts]
  obtain gm gn d where m: "compute_blocked_mean E sfs block dg opts
      = Some \<lparr>returned = finish_means E gm gn, sf_out = sfs, diag_out = d\<rparr>" by auto
  let ?means = "finish_means E gm gn"
  let ?r = "\<lparr>returned = ?means, sf_out = rescale_per_block E ?means (zip sfs block),
             diag_out = d\<rparr>"
  from compute_blocked_eq [OF m] mode
  have r: "compute_blocked E sfs block dg opts = Some ?r" by simp
  have l: "length (sf_out ?r) = length sfs"
    using len by (simp add: rescale_per_block_def)
  have mean: "?means ! b = returned (compute E ?sub dg2 opts)" if "b \<in> set block"
  proof -
    from that have "b < total_groups block" by (rule label_below_total_groups)
    from compute_blocked_mean_closed(3) [OF len m this]
    show ?thesis
      by (simp add: block_values_contributing [OF fixed, of b "zip sfs block" dg dg2]
          compute_returned compute_mean_returned)
  qed
  have sub: "block_values b (zip (sf_out ?r) block) = sf_out (compute E ?sub dg2 opts)"
  proof (cases "?sub = []")
    case True
    with len show ?thesis by (simp add: block_values_rescale compute_sf_out)
  next
    case False
    then have "b \<in> set block" by (rule block_values_nonempty)
    from mean [OF this] len show ?thesis
      by (simp add: block_values_rescale compute_sf_out compute_returned)
  qed
  have each: "\<forall>i<length sfs.
          sf_out ?r ! i =
            (if nonzero_sf E (returned ?r ! (block ! i))
             then div_sf E (sfs ! i) (returned ?r ! (block ! i)) else sfs ! i)"
    using len by (simp add: rescale_per_block_nth)
  from r l sub mean each show ?thesis by simp
qed

theorem per_block_is_isolated_compute_witness:
  "map_option sf_out (compute_blocked fp_ops [Finite 1, Finite 4, Finite (-1), Finite 3]
       [0, 1, 1, 0] None \<lparr>block_mode = PER_BLOCK, ignore_invalid = True\<rparr>)
     = Some [Finite (1/2), Finite 1, Finite (- (1/4)), Finite (3/2)]
   \<and> sf_out (compute fp_ops [Finite 1, Finite 3] None
       \<lparr>block_mode = PER_BLOCK, ignore_invalid = True\<rparr>) = [Finite (1/2), Finite (3/2)]
   \<and> sf_out (compute fp_ops [Finite 4, Finite (-1)] None
       \<lparr>block_mode = PER_BLOCK, ignore_invalid = True\<rparr>) = [Finite 1, Finite (- (1/4))]"
proof -
  let ?xs = "[Finite 1, Finite 4, Finite (-1), Finite 3]" and ?bs = "[0, 1, 1, 0::nat]"
  let ?o = "\<lparr>block_mode = PER_BLOCK, ignore_invalid = True\<rparr>"
  let ?out = "[Finite (1/2), Finite 1, Finite (- (1/4)), Finite (3/2)]"
  have len: "length ?bs = length ?xs" by simp
  have mode: "block_mode ?o = PER_BLOCK" by simp
  have fixed: "ignore_invalid ?o \<longrightarrow> verdict_fixed fp_ops" using fp_verdict_fixed by simp
  have e: "map_option sf_out (compute_blocked fp_ops ?xs ?bs None ?o) = Some ?out"
    by (simp add: blocked_eval fp_eval)
  have sub: "block_values b (zip ?out ?bs)
      = sf_out (compute fp_ops (block_values b (zip ?xs ?bs)) None ?o)" for b
  proof -
    from per_block_is_isolated_compute [OF len mode fixed, of None b None]
    obtain r where r: "compute_blocked fp_ops ?xs ?bs None ?o = Some r"
      and s: "block_values b (zip (sf_out r) ?bs)
         = sf_out (compute fp_ops (block_values b (zip ?xs ?bs)) None ?o)"
      by blast
    from e r have "sf_out r = ?out" by simp
    with s show ?thesis by simp
  qed
  from sub [of 0] sub [of 1] e show ?thesis by (simp add: block_values_def)
qed

subsection \<open>Blocked centering, mode LOWEST\<close>

lemma lowest_loop_inv:
  assumes ord: "order_laws E"
  shows "lowest_loop E ms (mn, found) = (mn', found') \<Longrightarrow>
     found' = (found \<or> (\<exists>m\<in>set ms. nonzero_sf E m))
     \<and> (\<not> found' \<longrightarrow> mn' = mn)
     \<and> (found \<longrightarrow> mn' = mn \<or> less_sf E mn' mn)
     \<and> (found' \<longrightarrow> (found \<and> mn' = mn \<or> mn' \<in> set ms \<and> nonzero_sf E mn')
                 \<and> (\<forall>m\<in>set ms. nonzero_sf E m \<longrightarrow> \<not> less_sf E m mn'))"
proof (induction ms arbitrary: mn found)
  case Nil
  then show ?case by auto
next
  case (Cons m rest)
  from ord have irr: "\<And>a. \<not> less_sf E a a"
    and trans: "\<And>a b c. less_sf E a b \<Longrightarrow> less_sf E b c \<Longrightarrow> less_sf E a c"
    unfolding order_laws_def by blast+
  show ?case
  proof (cases "nonzero_sf E m")
    case False
    with Cons.prems have "lowest_loop E rest (mn, found) = (mn', found')" by simp
    from Cons.IH [OF this] False show ?thesis by auto
  next
    case nz: True
    show ?thesis
    proof (cases "\<not> found \<or> less_sf E m mn")
      case True
      with nz Cons.prems have l: "lowest_loop E rest (m, True) = (mn', found')" by simp
      note ih = Cons.IH [OF l]
      from ih have f: "found'" by simp
      from ih have step: "mn' = m \<or> less_sf E mn' m" by simp
      from ih f have mem: "mn' = m \<or> mn' \<in> set rest \<and> nonzero_sf E mn'" by simp
      from ih f have low: "\<forall>x\<in>set rest. nonzero_sf E x \<longrightarrow> \<not> less_sf E x mn'" by simp
      from step have nm: "\<not> less_sf E m mn'" using irr trans by blast
      have down: "found \<longrightarrow> mn' = mn \<or> less_sf E mn' mn"
        using True step trans by blast
      from f nz mem low nm down show ?thesis by auto
    next
      case False
      then have fd: "found" and nl: "\<not> less_sf E m mn" by simp_all
      from False nz Cons.prems have l: "lowest_loop E rest (mn, found) = (mn', found')"
        by simp
      note ih = Cons.IH [OF l]
      from ih fd have f: "found'" by simp
      from ih fd have step: "mn' = mn \<or> less_sf E mn' mn" by simp
      from ih f have mem: "found \<and> mn' = mn \<or> mn' \<in> set rest \<and> nonzero_sf E mn'" by simp
      from ih f have low: "\<forall>x\<in>set rest. nonzero_sf E x \<longrightarrow> \<not> less_sf E x mn'" by simp
      from step nl have nm: "\<not> less_sf E m mn'" using trans by blast
      from f fd step mem low nm show ?thesis by auto
    qed
  qed
qed

lemma lowest_loop_filter:
  "lowest_loop E ms st = lowest_loop E (filter (nonzero_sf E) ms) st"
proof (induction ms arbitrary: st)
  case Nil
  then show ?case by simp
next
  case (Cons m rest)
  obtain mn found where st: "st = (mn, found)" by (cases st)
  show ?case
  proof (cases "nonzero_sf E m")
    case True
    with st Cons.IH [of "(m, True)"] Cons.IH [of "(mn, found)"] Cons.IH [of "(mn, True)"]
    show ?thesis by simp
  next
    case False
    with st Cons.IH [of "(mn, found)"] show ?thesis by simp
  qed
qed

lemma rescale_lowest_closed:
  assumes ord: "order_laws E"
  shows "(filter (nonzero_sf E) means = [] \<longrightarrow> rescale_lowest E means sfs = sfs)
     \<and> (filter (nonzero_sf E) means \<noteq> [] \<longrightarrow>
          (\<exists>d\<in>set (filter (nonzero_sf E) means).
             (\<forall>m\<in>set (filter (nonzero_sf E) means). \<not> less_sf E m d)
             \<and> (d = hd (filter (nonzero_sf E) means)
                  \<or> less_sf E d (hd (filter (nonzero_sf E) means)))
             \<and> rescale_lowest E means sfs
                 = (if less_sf E (zero_sf E) d then map (\<lambda>x. div_sf E x d) sfs else sfs)))"
proof -
  let ?nz = "filter (nonzero_sf E) means"
  obtain mn found where l: "lowest_loop E means (zero_sf E, False) = (mn, found)"
    by (cases "lowest_loop E means (zero_sf E, False)")
  from ord have irr: "\<And>a. \<not> less_sf E a a"
    and trans: "\<And>a b c. less_sf E a b \<Longrightarrow> less_sf E b c \<Longrightarrow> less_sf E a c"
    unfolding order_laws_def by blast+
  have r: "rescale_lowest E means sfs
      = (if less_sf E (zero_sf E) mn then map (\<lambda>x. div_sf E x mn) sfs else sfs)"
    using l by (simp add: rescale_lowest_def)
  from l lowest_loop_filter [of E means "(zero_sf E, False)"]
  have lf: "lowest_loop E ?nz (zero_sf E, False) = (mn, found)" by simp
  show ?thesis
  proof (cases ?nz)
    case Nil
    with lf have "mn = zero_sf E" by simp
    with r irr Nil show ?thesis by simp
  next
    case (Cons f rest)
    then have "f \<in> set ?nz" by simp
    then have nzf: "nonzero_sf E f" by simp
    from Cons have "set rest \<subseteq> set ?nz" by auto
    then have nzr: "\<forall>m\<in>set rest. nonzero_sf E m" by auto
    from lf Cons nzf have l2: "lowest_loop E rest (f, True) = (mn, found)" by simp
    note inv = lowest_loop_inv [OF ord l2]
    from inv have step: "mn = f \<or> less_sf E mn f" by simp
    from inv have mem: "mn = f \<or> mn \<in> set rest" by auto
    from inv nzr have low: "\<forall>m\<in>set rest. \<not> less_sf E m mn" by auto
    from step have "\<not> less_sf E f mn" using irr trans by blast
    with low have min: "\<forall>m\<in>set (f # rest). \<not> less_sf E m mn" by simp
    from mem have "mn \<in> set (f # rest)" by auto
    with min step r Cons show ?thesis by auto
  qed
qed

text \<open>
  Claim C2, as stated, fails. With \<open>ignore_invalid = false\<close>, the size factors
  \<open>[-1.0, 2.0]\<close> in the blocks \<open>[0, 1]\<close> have the means \<open>[-1.0, 2.0]\<close>. Block 1 has a
  positive mean, the least strictly positive mean is \<open>2.0\<close>, and yet the array is left
  as it was instead of being divided by \<open>2.0\<close>: the search settles on \<open>-1.0\<close>.
\<close>

theorem lowest_negative_mean_counterexample:
  "map_option returned (compute_blocked fp_ops [Finite (-1), Finite 2] [0, 1] None
       \<lparr>block_mode = LOWEST, ignore_invalid = False\<rparr>) = Some [Finite (-1), Finite 2]
   \<and> fp_less (Finite 0) (Finite 2)
   \<and> map_option sf_out (compute_blocked fp_ops [Finite (-1), Finite 2] [0, 1] None
       \<lparr>block_mode = LOWEST, ignore_invalid = False\<rparr>) = Some [Finite (-1), Finite 2]
   \<and> map_option sf_out (compute_blocked fp_ops [Finite (-1), Finite 2] [0, 1] None
       \<lparr>block_mode = LOWEST, ignore_invalid = False\<rparr>)
       \<noteq> Some [fp_div (Finite (-1)) (Finite 2), fp_div (Finite 2) (Finite 2)]"
  by (simp add: blocked_eval fp_eval)

text \<open>
  Claim C2, amended. In mode \<open>LOWEST\<close>, \<open>compute_blocked\<close> scans the per-block means
  in block order, leaving out those that are zero (negative means are not left out):
  it starts from the first non-zero mean and replaces it by each later non-zero mean
  that compares less. Without a non-zero mean the array is left as it was. Otherwise
  the search ends on one non-zero mean \<open>d\<close>: no non-zero mean is less than \<open>d\<close>,
  \<open>d\<close> is the first non-zero mean or strictly less than it, and \<open>d\<close> is the least
  non-zero mean wherever \<open><\<close> is total on the non-zero means (no NaN among them).
  Every value of the array is divided by \<open>d\<close> if \<open>d\<close> is strictly positive, and the
  array is left as it was if it is not. In particular, when every non-zero mean is
  strictly positive and there is one, every value is divided by the minimum strictly
  positive mean.
\<close>

theorem lowest_divides_by_minimum:
  assumes len: "length block = length sfs"
    and mode: "block_mode opts = LOWEST"
    and ord: "order_laws E"
  shows "\<exists>r. compute_blocked E sfs block dg opts = Some r
     \<and> (filter (nonzero_sf E) (returned r) = [] \<longrightarrow> sf_out r = sfs)
     \<and> (filter (nonzero_sf E) (returned r) \<noteq> [] \<longrightarrow>
          (\<exists>d\<in>set (filter (nonzero_sf E) (returned r)).
             (\<forall>m\<in>set (filter (nonzero_sf E) (returned r)). \<not> less_sf E m d)
             \<and> (d = hd (filter (nonzero_sf E) (returned r))
                  \<or> less_sf E d (hd (filter (nonzero_sf E) (returned r))))
             \<and> ((\<forall>a\<in>set (filter (nonzero_sf E) (returned r)).
                    \<forall>b\<in>set (filter (nonzero_sf E) (returned r)).
                      a = b \<or> less_sf E a b \<or> less_sf E b a) \<longrightarrow>
                  (\<forall>m\<in>set (filter (nonzero_sf E) (returned r)). m = d \<or> less_sf E d m))
             \<and> sf_out r
                 = (if less_sf E (zero_sf E) d then map (\<lambda>x. div_sf E x d) sfs else sfs)))
     \<and> (filter (nonzero_sf E) (returned r) \<noteq> []
          \<and> (\<forall>m\<in>set (filter (nonzero_sf E) (returned r)). less_sf E (zero_sf E) m) \<longrightarrow>
          (\<exists>d\<in>set (filter (nonzero_sf E) (returned r)).
             (\<forall>m\<in>set (filter (nonzero_sf E) (returned r)). \<not> less_sf E m d)
             \<and> (d = hd (filter (nonzero_sf E) (returned r))
                  \<or> less_sf E d (hd (filter (nonzero_sf E) (returned r))))
             \<and> sf_out r = map (\<lambda>x. div_sf E x d) sfs))"
proof -
  from compute_blocked_mean_Some [OF len, of E dg opts]
  obtain gm gn d where m: "compute_blocked_mean E sfs block dg opts
      = Some \<lparr>returned = finish_means E gm gn, sf_out = sfs, diag_out = d\<rparr>" by auto
  let ?means = "finish_means E gm gn"
  let ?nz = "filter (nonzero_sf E) ?means"
  let ?r = "\<lparr>returned = ?means, sf_out = rescale_lowest E ?means sfs, diag_out = d\<rparr>"
  let ?total = "\<forall>a\<in>set ?nz. \<forall>b\<in>set ?nz. a = b \<or> less_sf E a b \<or> less_sf E b a"
  from compute_blocked_eq [OF m] mode
  have r: "compute_blocked E sfs block dg opts = Some ?r" by simp
  have sel: "returned ?r = ?means" "sf_out ?r = rescale_lowest E ?means sfs" by simp_all
  note c = rescale_lowest_closed [OF ord, of ?means sfs]
  from c have a: "?nz = [] \<longrightarrow> rescale_lowest E ?means sfs = sfs" by blast
  have b: "\<exists>d\<in>set ?nz. (\<forall>m\<in>set ?nz. \<not> less_sf E m d)
             \<and> (d = hd ?nz \<or> less_sf E d (hd ?nz))
             \<and> (?total \<longrightarrow> (\<forall>m\<in>set ?nz. m = d \<or> less_sf E d m))
             \<and> rescale_lowest E ?means sfs
                 = (if less_sf E (zero_sf E) d then map (\<lambda>x. div_sf E x d) sfs else sfs)"
    if ne: "?nz \<noteq> []"
  proof -
    from c ne obtain d where d: "d \<in> set ?nz" "\<forall>m\<in>set ?nz. \<not> less_sf E m d"
      "d = hd ?nz \<or> less_sf E d (hd ?nz)"
      "rescale_lowest E ?means sfs
         = (if less_sf E (zero_sf E) d then map (\<lambda>x. div_sf E x d) sfs else sfs)"
      by blast
    have least: "\<forall>m\<in>set ?nz. m = d \<or> less_sf E d m" if t: ?total
    proof
      fix m assume mm: "m \<in> set ?nz"
      with t d(1) have "m = d \<or> less_sf E m d \<or> less_sf E d m" by blast
      with d(2) mm show "m = d \<or> less_sf E d m" by blast
    qed
    then have "?total \<longrightarrow> (\<forall>m\<in>set ?nz. m = d \<or> less_sf E d m)" by blast
    with d show ?thesis by blast
  qed
  then have b': "?nz \<noteq> [] \<longrightarrow> (\<exists>d\<in>set ?nz. (\<forall>m\<in>set ?nz. \<not> less_sf E m d)
             \<and> (d = hd ?nz \<or> less_sf E d (hd ?nz))
             \<and> (?total \<longrightarrow> (\<forall>m\<in>set ?nz. m = d \<or> less_sf E d m))
             \<and> rescale_lowest E ?means sfs
                 = (if less_sf E (zero_sf E) d then map (\<lambda>x. div_sf E x d) sfs else sfs))"
    by blast
  have p: "?nz \<noteq> [] \<and> (\<forall>m\<in>set ?nz. less_sf E (zero_sf E) m) \<longrightarrow>
          (\<exists>d\<in>set ?nz. (\<forall>m\<in>set ?nz. \<not> less_sf E m d)
             \<and> (d = hd ?nz \<or> less_sf E d (hd ?nz))
             \<and> rescale_lowest E ?means sfs = map (\<lambda>x. div_sf E x d) sfs)"
  proof
    assume h: "?nz \<noteq> [] \<and> (\<forall>m\<in>set ?nz. less_sf E (zero_sf E) m)"
    with c obtain d where d: "d \<in> set ?nz" "\<forall>m\<in>set ?nz. \<not> less_sf E m d"
      "d = hd ?nz \<or> less_sf E d (hd ?nz)"
      "rescale_lowest E ?means sfs
         = (if less_sf E (zero_sf E) d then map (\<lambda>x. div_sf E x d) sfs else sfs)"
      by blast
    from h d(1) have "less_sf E (zero_sf E) d" by blast
    with d(4) have "rescale_lowest E ?means sfs = map (\<lambda>x. div_sf E x d) sfs" by simp
    with d show "\<exists>d\<in>set ?nz. (\<forall>m\<in>set ?nz. \<not> less_sf E m d)
             \<and> (d = hd ?nz \<or> less_sf E d (hd ?nz))
             \<and> rescale_lowest E ?means sfs = map (\<lambda>x. div_sf E x d) sfs"
      by blast
  qed
  show ?thesis
  proof (intro exI [of _ ?r] conjI)
    show "compute_blocked E sfs block dg opts = Some ?r" by (rule r)
  qed (unfold sel, rule a, rule b', rule p)
qed


theorem lowest_divides_by_minimum_witness:
  "map_option returned (compute_blocked fp_ops [Finite 1, Finite 3, Finite 4, Finite 8]
       [0, 0, 1, 2] None default_Options) = Some [Finite 2, Finite 4, Finite 8]
   \<and> map_option sf_out (compute_blocked fp_ops [Finite 1, Finite 3, Finite 4, Finite 8]
       [0, 0, 1, 2] None default_Options)
       = Some [Finite (1/2), Finite (3/2), Finite 2, Finite 4]
   \<and> map_option sf_out (compute_blocked fp_ops [Finite 2, NaN] [0, 1] None
       \<lparr>block_mode = LOWEST, ignore_invalid = False\<rparr>) = Some [Finite 1, NaN]
   \<and> map_option sf_out (compute_blocked fp_ops [NaN, Finite 2] [0, 1] None
       \<lparr>block_mode = LOWEST, ignore_invalid = False\<rparr>) = Some [NaN, Finite 2]"
proof -
  let ?xs = "[Finite 1, Finite 3, Finite 4, Finite 8]" and ?bs = "[0, 0, 1, 2::nat]"
  let ?o = "\<lparr>block_mode = LOWEST, ignore_invalid = False\<rparr>"
  have mode: "block_mode default_Options = LOWEST" by (simp add: default_Options_def)
  have m: "map_option returned (compute_blocked fp_ops ?xs ?bs None default_Options)
      = Some [Finite 2, Finite 4, Finite 8]"
    by (simp add: compute_blocked_def compute_blocked_mean_def total_groups_def
        finish_means_def Let_def default_Options_def fp_eval)
  have a: "map_option sf_out (compute_blocked fp_ops ?xs ?bs None default_Options)
      = Some (map (\<lambda>x. fp_div x (Finite 2)) ?xs)"
  proof -
    have len: "length ?bs = length ?xs" by simp
    from lowest_divides_by_minimum [OF len mode fp_order_laws, of None]
    obtain r where r: "compute_blocked fp_ops ?xs ?bs None default_Options = Some r"
      and p: "filter (nonzero_sf fp_ops) (returned r) \<noteq> []
            \<and> (\<forall>m\<in>set (filter (nonzero_sf fp_ops) (returned r)).
                  less_sf fp_ops (zero_sf fp_ops) m)
          \<longrightarrow> (\<exists>d\<in>set (filter (nonzero_sf fp_ops) (returned r)).
               (\<forall>m\<in>set (filter (nonzero_sf fp_ops) (returned r)). \<not> less_sf fp_ops m d)
               \<and> (d = hd (filter (nonzero_sf fp_ops) (returned r))
                    \<or> less_sf fp_ops d (hd (filter (nonzero_sf fp_ops) (returned r))))
               \<and> sf_out r = map (\<lambda>x. div_sf fp_ops x d) ?xs)"
      by blast
    from m r have means: "returned r = [Finite 2, Finite 4, Finite 8]" by simp
    with p have "\<exists>d\<in>{Finite 2, Finite 4, Finite 8}.
        (\<forall>m\<in>{Finite 2, Finite 4, Finite 8}. \<not> fp_less m d)
        \<and> sf_out r = map (\<lambda>x. fp_div x d) ?xs"
      by (simp add: fp_eval)
    then have "sf_out r = map (\<lambda>x. fp_div x (Finite 2)) ?xs" by auto
    with r show ?thesis by simp
  qed
  have n1: "map_option sf_out (compute_blocked fp_ops [Finite 2, NaN] [0, 1] None ?o)
      = Some [Finite 1, NaN]"
  proof -
    have len: "length [0, 1::nat] = length [Finite 2, NaN]" by simp
    have mo: "block_mode ?o = LOWEST" by simp
    have mm: "map_option returned (compute_blocked fp_ops [Finite 2, NaN] [0, 1] None ?o)
        = Some [Finite 2, NaN]"
      by (simp add: compute_blocked_def compute_blocked_mean_def total_groups_def
          finish_means_def Let_def fp_eval)
    from lowest_divides_by_minimum [OF len mo fp_order_laws, of None]
    obtain r where r: "compute_blocked fp_ops [Finite 2, NaN] [0, 1] None ?o = Some r"
      and g: "filter (nonzero_sf fp_ops) (returned r) \<noteq> [] \<longrightarrow>
          (\<exists>d\<in>set (filter (nonzero_sf fp_ops) (returned r)).
             (d = hd (filter (nonzero_sf fp_ops) (returned r))
                  \<or> less_sf fp_ops d (hd (filter (nonzero_sf fp_ops) (returned r))))
             \<and> sf_out r
                 = (if less_sf fp_ops (zero_sf fp_ops) d
                    then map (\<lambda>x. div_sf fp_ops x d) [Finite 2, NaN] else [Finite 2, NaN]))"
      by blast
    from mm r have means: "returned r = [Finite 2, NaN]" by simp
    from g means have "sf_out r = [Finite 1, NaN]" by (simp add: fp_eval)
    with r show ?thesis by simp
  qed
  have n2: "map_option sf_out (compute_blocked fp_ops [NaN, Finite 2] [0, 1] None ?o)
      = Some [NaN, Finite 2]"
  proof -
    have len: "length [0, 1::nat] = length [NaN, Finite 2]" by simp
    have mo: "block_mode ?o = LOWEST" by simp
    have mm: "map_option returned (compute_blocked fp_ops [NaN, Finite 2] [0, 1] None ?o)
        = Some [NaN, Finite 2]"
      by (simp add: compute_blocked_def compute_blocked_mean_def total_groups_def
          finish_means_def Let_def fp_eval)
    from lowest_divides_by_minimum [OF len mo fp_order_laws, of None]
    obtain r where r: "compute_blocked fp_ops [NaN, Finite 2] [0, 1] None ?o = Some r"
      and g: "filter (nonzero_sf fp_ops) (returned r) \<noteq> [] \<longrightarrow>
          (\<exists>d\<in>set (filter (nonzero_sf fp_ops) (returned r)).
             (d = hd (filter (nonzero_sf fp_ops) (returned r))
                  \<or> less_sf fp_ops d (hd (filter (nonzero_sf fp_ops) (returned r))))
             \<and> sf_out r
                 = (if less_sf fp_ops (zero_sf fp_ops) d
                    then map (\<lambda>x. div_sf fp_ops x d) [NaN, Finite 2] else [NaN, Finite 2]))"
      by blast
    from mm r have means: "returned r = [NaN, Finite 2]" by simp
    from g means have "sf_out r = [NaN, Finite 2]" by (simp add: fp_eval)
    with r show ?thesis by simp
  qed
  from n1 n2 a m show ?thesis by simp
qed

end
